theory Spec2Isabelle
  imports Complex_Main "HOL-Library.Sublist"
begin

section \<open>Values, exceptions and the store\<close>

text \<open>
  The cells of a pandas frame and the parameters bound to a statement are Python
  objects. The ETL copies them around, tests their truth value, compares them and asks
  whether they are missing; nothing else is done with them.
\<close>

datatype pyval =
    PNone
  | PNaN
  | PInt int
  | PFloat rat
  | PStr string
  | PTimestamp int \<comment> \<open>a \<open>pandas.Timestamp\<close>, as milliseconds since the Unix epoch\<close>

text \<open>Truth value of an object, as \<open>if x:\<close> tests it. \<open>nan\<close> is a non-zero float.\<close>

fun truthy :: "pyval \<Rightarrow> bool" where
  "truthy PNone = False"
| "truthy PNaN = True"
| "truthy (PInt i) = (i \<noteq> 0)"
| "truthy (PFloat q) = (q \<noteq> 0)"
| "truthy (PStr s) = (s \<noteq> [])"
| "truthy (PTimestamp t) = True"

text \<open>\<open>pandas.isna\<close> on a scalar.\<close>

fun isna :: "pyval \<Rightarrow> bool" where
  "isna PNone = True"
| "isna PNaN = True"
| "isna v = False"

text \<open>
  Equality of two cells as the hash table behind \<open>duplicated\<close> decides it: numbers
  compare by value whatever their type, two \<open>nan\<close> are the same key.
\<close>

fun py_eq :: "pyval \<Rightarrow> pyval \<Rightarrow> bool" where
  "py_eq (PInt i) (PFloat q) = (of_int i = q)"
| "py_eq (PFloat q) (PInt i) = (of_int i = q)"
| "py_eq a b = (a = b)"

datatype exn =
    Psycopg2_Error string   \<comment> \<open>\<open>psycopg2.Error\<close> and its subclasses, with the message\<close>
  | IndexError
  | ValueError string
  | UnboundLocalError string

fun is_psycopg2_Error :: "exn \<Rightarrow> bool" where
  "is_psycopg2_Error (Psycopg2_Error m) = True"
| "is_psycopg2_Error e = False"

fun str_exn :: "exn \<Rightarrow> string" where
  "str_exn (Psycopg2_Error m) = m"
| "str_exn IndexError = ''index 0 is out of bounds for axis 0 with size 0''"
| "str_exn (ValueError m) = m"
| "str_exn (UnboundLocalError m) = m"

text \<open>
  The statements of \<open>sql_queries\<close>. Their SQL text is not part of \<open>etl.py\<close>; the ETL
  only names them.
\<close>

datatype query =
    song_table_insert
  | artist_table_insert
  | time_table_insert
  | user_table_insert
  | songplay_table_insert
  | song_select

text \<open>
  The store (psycopg2 and the database behind it) is an external collaborator: a state
  of some type \<open>'s\<close> and the operations the ETL calls on psycopg2, the connection
  and the cursor. Each may raise; the state it leaves behind is kept either way, since the
  connection outlives the exception.
\<close>

record 's driver =
  psycopg2_connect :: "'s \<Rightarrow> exn option \<times> 's"
  conn_cursor :: "'s \<Rightarrow> exn option \<times> 's"
  cur_execute :: "query \<Rightarrow> pyval list \<Rightarrow> 's \<Rightarrow> exn option \<times> 's"
  cur_fetchone :: "'s \<Rightarrow> (exn + (pyval \<times> pyval) option) \<times> 's"
  conn_commit :: "'s \<Rightarrow> exn option \<times> 's"
  conn_rollback :: "'s \<Rightarrow> exn option \<times> 's"
  conn_close :: "'s \<Rightarrow> exn option \<times> 's"

datatype call =
    Connect
  | Cursor
  | Execute query "pyval list"
  | Fetchone
  | Commit
  | Rollback
  | Close

text \<open>
  What a run can change: the store, the calls it has issued to the store so far (kept
  in order, whether or not the call raised) and the lines it has printed.
\<close>

record 's world =
  db :: 's
  calls :: "call list"
  stdout :: "string list"

definition execute :: "'s driver \<Rightarrow> query \<Rightarrow> pyval list \<Rightarrow> 's world \<Rightarrow> exn option \<times> 's world" where
  "execute drv q params w =
     (case cur_execute drv q params (db w) of
        (r, s) \<Rightarrow> (r, w\<lparr>db := s, calls := calls w @ [Execute q params]\<rparr>))"

definition fetchone :: "'s driver \<Rightarrow> 's world \<Rightarrow> (exn + (pyval \<times> pyval) option) \<times> 's world" where
  "fetchone drv w =
     (case cur_fetchone drv (db w) of
        (r, s) \<Rightarrow> (r, w\<lparr>db := s, calls := calls w @ [Fetchone]\<rparr>))"

definition commit :: "'s driver \<Rightarrow> 's world \<Rightarrow> exn option \<times> 's world" where
  "commit drv w =
     (case conn_commit drv (db w) of
        (r, s) \<Rightarrow> (r, w\<lparr>db := s, calls := calls w @ [Commit]\<rparr>))"

definition rollback :: "'s driver \<Rightarrow> 's world \<Rightarrow> exn option \<times> 's world" where
  "rollback drv w =
     (case conn_rollback drv (db w) of
        (r, s) \<Rightarrow> (r, w\<lparr>db := s, calls := calls w @ [Rollback]\<rparr>))"

definition connect :: "'s driver \<Rightarrow> 's world \<Rightarrow> exn option \<times> 's world" where
  "connect drv w =
     (case psycopg2_connect drv (db w) of
        (r, s) \<Rightarrow> (r, w\<lparr>db := s, calls := calls w @ [Connect]\<rparr>))"

definition cursor :: "'s driver \<Rightarrow> 's world \<Rightarrow> exn option \<times> 's world" where
  "cursor drv w =
     (case conn_cursor drv (db w) of
        (r, s) \<Rightarrow> (r, w\<lparr>db := s, calls := calls w @ [Cursor]\<rparr>))"

definition close :: "'s driver \<Rightarrow> 's world \<Rightarrow> exn option \<times> 's world" where
  "close drv w =
     (case conn_close drv (db w) of
        (r, s) \<Rightarrow> (r, w\<lparr>db := s, calls := calls w @ [Close]\<rparr>))"

definition print :: "string \<Rightarrow> 's world \<Rightarrow> 's world" where
  "print line w = w\<lparr>stdout := stdout w @ [line]\<rparr>"

text \<open>A \<open>for\<close> loop whose body may raise: the first exception ends the loop.\<close>

fun for_each :: "('a \<Rightarrow> 'w \<Rightarrow> exn option \<times> 'w) \<Rightarrow> 'a list \<Rightarrow> 'w \<Rightarrow> exn option \<times> 'w" where
  "for_each body [] w = (None, w)"
| "for_each body (x # xs) w =
     (case body x w of
        (None, w1) \<Rightarrow> for_each body xs w1
      | (Some e, w1) \<Rightarrow> (Some e, w1))"

text \<open>The parameter rows of the calls that executed statement \<open>q\<close>, in the order issued.\<close>

fun executed :: "query \<Rightarrow> call list \<Rightarrow> pyval list list" where
  "executed q [] = []"
| "executed q (Execute q' params # cs) =
     (if q' = q then params # executed q cs else executed q cs)"
| "executed q (c # cs) = executed q cs"

section \<open>The song transformer\<close>

record song_record =
  song_id :: pyval
  title :: pyval
  artist_id :: pyval
  year :: pyval
  duration :: pyval
  artist_name :: pyval
  artist_location :: pyval
  artist_latitude :: pyval
  artist_longitude :: pyval

text \<open>\<open>df[[...]].values[0].tolist()\<close>: the first row of a projection, or \<open>IndexError\<close>.\<close>

definition values0 :: "('r \<Rightarrow> pyval list) \<Rightarrow> 'r list \<Rightarrow> exn + pyval list" where
  "values0 cols df = (case map cols df of [] \<Rightarrow> Inl IndexError | row # _ \<Rightarrow> Inr row)"

definition song_columns :: "song_record \<Rightarrow> pyval list" where
  "song_columns r = [song_id r, title r, artist_id r, year r, duration r]"

definition artist_columns :: "song_record \<Rightarrow> pyval list" where
  "artist_columns r =
     [artist_id r, artist_name r, artist_location r, artist_latitude r, artist_longitude r]"

definition process_song_file ::
  "(string \<Rightarrow> exn + song_record list) \<Rightarrow> 's driver \<Rightarrow> string \<Rightarrow> 's world \<Rightarrow> exn option \<times> 's world" where
  "process_song_file read_json cur filepath w =
     (case read_json filepath of
        Inl e \<Rightarrow> (Some e, w)
      | Inr df \<Rightarrow>
          (case values0 song_columns df of
             Inl e \<Rightarrow> (Some e, w)
           | Inr song_data \<Rightarrow>
               (case execute cur song_table_insert song_data w of
                  (Some e, w1) \<Rightarrow> (Some e, w1)
                | (None, w1) \<Rightarrow>
                    (case values0 artist_columns df of
                       Inl e \<Rightarrow> (Some e, w1)
                     | Inr artist_data \<Rightarrow> execute cur artist_table_insert artist_data w1))))"

section \<open>Calendar fields of a timestamp\<close>

text \<open>
  \<open>pd.to_datetime(ts, origin='unix', unit='ms')\<close> reads an integer as milliseconds
  since 1970-01-01T00:00 and the \<open>dt\<close> accessors give the fields of that instant in the
  proleptic Gregorian calendar, without a time zone. Days are counted from the epoch;
  Python's \<open>//\<close> and HOL's \<open>div\<close> on \<open>int\<close> both round down.
\<close>

definition to_datetime :: "int \<Rightarrow> pyval" where
  "to_datetime ms = PTimestamp ms"

definition epoch_day :: "int \<Rightarrow> int" where
  "epoch_day ms = ms div 86400000"

text \<open>The civil date (year, month, day) of a day number, by 400-year eras starting on 1 March.\<close>

definition civil_from_days :: "int \<Rightarrow> int \<times> int \<times> int" where
  "civil_from_days z0 =
     (let z = z0 + 719468;
          era = z div 146097;
          doe = z mod 146097;
          yoe = (doe - doe div 1460 + doe div 36524 - doe div 146096) div 365;
          doy = doe - (365 * yoe + yoe div 4 - yoe div 100);
          mp = (5 * doy + 2) div 153;
          d = doy - (153 * mp + 2) div 5 + 1;
          m = (if mp < 10 then mp + 3 else mp - 9);
          y = yoe + era * 400
      in (if m \<le> 2 then y + 1 else y, m, d))"

definition days_from_civil :: "int \<Rightarrow> int \<Rightarrow> int \<Rightarrow> int" where
  "days_from_civil y0 m d =
     (let y = (if m \<le> 2 then y0 - 1 else y0);
          era = y div 400;
          yoe = y mod 400;
          doy = (153 * (if m > 2 then m - 3 else m + 9) + 2) div 5 + d - 1;
          doe = yoe * 365 + yoe div 4 - yoe div 100 + doy
      in era * 146097 + doe - 719468)"

definition dt_hour :: "int \<Rightarrow> int" where
  "dt_hour ms = (ms mod 86400000) div 3600000"

definition dt_year :: "int \<Rightarrow> int" where
  "dt_year ms = fst (civil_from_days (epoch_day ms))"

definition dt_month :: "int \<Rightarrow> int" where
  "dt_month ms = fst (snd (civil_from_days (epoch_day ms)))"

definition dt_day :: "int \<Rightarrow> int" where
  "dt_day ms = snd (snd (civil_from_days (epoch_day ms)))"

text \<open>Monday is 0; 1970-01-01 was a Thursday.\<close>

definition dt_weekday :: "int \<Rightarrow> int" where
  "dt_weekday ms = (epoch_day ms + 3) mod 7"

text \<open>The ISO week of a day is the week, counted within its year, of that week's Thursday.\<close>

definition dt_isocalendar_week :: "int \<Rightarrow> int" where
  "dt_isocalendar_week ms =
     (let thursday = epoch_day ms - dt_weekday ms + 3;
          y = fst (civil_from_days thursday)
      in (thursday - days_from_civil y 1 1) div 7 + 1)"

section \<open>The log transformer\<close>

record log_record =
  page :: pyval
  ts :: int
  userId :: pyval
  firstName :: pyval
  lastName :: pyval
  gender :: pyval
  level :: pyval
  song :: pyval
  length_col :: pyval
  sessionId :: pyval
  location :: pyval
  userAgent :: pyval

text \<open>\<open>df[mask]\<close>: the rows whose entry in a boolean column is true, in order.\<close>

definition mask_select :: "'r list \<Rightarrow> bool list \<Rightarrow> 'r list" where
  "mask_select df flags = map fst (filter snd (zip df flags))"

text \<open>
  \<open>pd.DataFrame(dict)\<close> on columns that share one index, read row by row as
  \<open>iterrows\<close> with \<open>list(row)\<close> does: row \<open>i\<close> holds entry \<open>i\<close> of every column, in the
  order the dict lists the columns.
\<close>

definition frame_rows :: "(string \<times> pyval list) list \<Rightarrow> pyval list list" where
  "frame_rows columns =
     (case columns of
        [] \<Rightarrow> []
      | (label, c) # _ \<Rightarrow> map (\<lambda>i. map (\<lambda>(label, col). col ! i) columns) [0..<length c])"

definition time_df :: "log_record list \<Rightarrow> pyval list list" where
  "time_df df =
     (let filter_mask = map (\<lambda>r. page r = PStr ''NextSong'') df;
          df_time_table = mask_select df filter_mask;
          t = map ts df_time_table;
          time_data =
            [map to_datetime t,
             map (\<lambda>x. PInt (dt_hour x)) t,
             map (\<lambda>x. PInt (dt_day x)) t,
             map (\<lambda>x. PInt (dt_isocalendar_week x)) t,
             map (\<lambda>x. PInt (dt_month x)) t,
             map (\<lambda>x. PInt (dt_year x)) t,
             map (\<lambda>x. PInt (dt_weekday x)) t];
          column_labels =
            [''timestamp'', ''hour'', ''day'', ''weekofyear'', ''month'', ''year'', ''weekday''];
          dict_time_data = zip column_labels time_data
      in frame_rows dict_time_data)"

definition user_columns :: "log_record \<Rightarrow> pyval list" where
  "user_columns r = [userId r, firstName r, lastName r, gender r, level r]"

text \<open>\<open>drop_duplicates(subset=k)\<close> keeps a row when no earlier row has an equal key.\<close>

fun drop_duplicates_seen :: "('r \<Rightarrow> pyval) \<Rightarrow> pyval list \<Rightarrow> 'r list \<Rightarrow> 'r list" where
  "drop_duplicates_seen key seen [] = []"
| "drop_duplicates_seen key seen (r # rs) =
     (if list_ex (py_eq (key r)) seen then drop_duplicates_seen key seen rs
      else r # drop_duplicates_seen key (key r # seen) rs)"

definition drop_duplicates :: "('r \<Rightarrow> pyval) \<Rightarrow> 'r list \<Rightarrow> 'r list" where
  "drop_duplicates key rows = drop_duplicates_seen key [] rows"

definition dropna :: "pyval list list \<Rightarrow> pyval list list" where
  "dropna rows = filter (\<lambda>row. \<not> list_ex isna row) rows"

definition user_df :: "log_record list \<Rightarrow> pyval list list" where
  "user_df df = dropna (drop_duplicates (\<lambda>row. row ! 0) (map user_columns df))"

text \<open>The body of the songplay loop, for one row of the frame.\<close>

definition songplay_data :: "log_record \<Rightarrow> (pyval \<times> pyval) option \<Rightarrow> pyval list" where
  "songplay_data row results =
     (let (songid, artistid) = (case results of Some (s, a) \<Rightarrow> (s, a) | None \<Rightarrow> (PNone, PNone));
          songplay_ts = to_datetime (ts row);
          songplay_userId = (if truthy (userId row) then userId row else PNone)
      in [sessionId row, songplay_ts, songplay_userId, level row, songid, artistid,
          location row, userAgent row])"

definition songplay_row :: "'s driver \<Rightarrow> log_record \<Rightarrow> 's world \<Rightarrow> exn option \<times> 's world" where
  "songplay_row cur row w =
     (case execute cur song_select [song row, length_col row] w of
        (Some e, w1) \<Rightarrow> (Some e, w1)
      | (None, w1) \<Rightarrow>
          (case fetchone cur w1 of
             (Inl e, w2) \<Rightarrow> (Some e, w2)
           | (Inr results, w2) \<Rightarrow>
               (let (songid, artistid) =
                      (case results of Some (s, a) \<Rightarrow> (s, a) | None \<Rightarrow> (PNone, PNone));
                    songplay_userId = (if truthy (userId row) then userId row else PNone)
                in if truthy songplay_userId \<and> truthy songid \<and> truthy artistid
                   then execute cur songplay_table_insert (songplay_data row results) w2
                   else (None, w2))))"

definition process_log_file ::
  "(string \<Rightarrow> exn + log_record list) \<Rightarrow> 's driver \<Rightarrow> string \<Rightarrow> 's world \<Rightarrow> exn option \<times> 's world" where
  "process_log_file read_json cur filepath w =
     (case read_json filepath of
        Inl e \<Rightarrow> (Some e, w)
      | Inr df \<Rightarrow>
          (case for_each (execute cur time_table_insert) (time_df df) w of
             (Some e, w1) \<Rightarrow> (Some e, w1)
           | (None, w1) \<Rightarrow>
               (case for_each (execute cur user_table_insert) (user_df df) w1 of
                  (Some e, w2) \<Rightarrow> (Some e, w2)
                | (None, w2) \<Rightarrow> for_each (songplay_row cur) df w2)))"

section \<open>The file walker\<close>

text \<open>
  A directory is the list of its entries in the order the operating system lists them.
  \<open>os.walk\<close> visits a directory and then each of its subdirectories in that order; it
  yields nothing for a path that is no directory.
\<close>

datatype entry = File string | Dir string "entry list"

fun entry_name :: "entry \<Rightarrow> string" where
  "entry_name (File n) = n"
| "entry_name (Dir n es) = n"

text \<open>\<open>os.path.join\<close> of two components, on POSIX.\<close>

definition os_path_join :: "string \<Rightarrow> string \<Rightarrow> string" where
  "os_path_join a b =
     (if b \<noteq> [] \<and> hd b = CHR ''/'' then b
      else if a = [] \<or> last a = CHR ''/'' then a @ b
      else a @ ''/'' @ b)"

fun os_walk :: "string \<Rightarrow> entry list \<Rightarrow> (string \<times> entry list) list" where
  "os_walk dirpath es =
     (dirpath, es) #
     concat (map (\<lambda>e. case e of File n \<Rightarrow> [] | Dir n sub \<Rightarrow> os_walk (os_path_join dirpath n) sub) es)"

declare os_walk.simps [simp del]


text \<open>
  \<open>glob.glob(os.path.join(root, '*.json'))\<close>. The pattern is split at its last slash;
  the directory part loses its trailing slashes. A directory part without wildcard
  characters is listed; names that start with a dot are left out before the names are
  matched against \<open>*.json\<close>, and directories are matched like files. A directory part
  with wildcard characters is itself expanded as a pattern by the library: \<open>expand\<close>.
\<close>

definition has_magic :: "string \<Rightarrow> bool" where
  "has_magic s = list_ex (\<lambda>c. c = CHR ''*'' \<or> c = CHR ''?'' \<or> c = CHR ''['') s"

definition ishidden :: "string \<Rightarrow> bool" where
  "ishidden n = (case n of [] \<Rightarrow> False | c # _ \<Rightarrow> c = CHR ''.'')"

definition endswith :: "string \<Rightarrow> string \<Rightarrow> bool" where
  "endswith s suf = (length suf \<le> length s \<and> drop (length s - length suf) s = suf)"

definition glob_dirname :: "string \<Rightarrow> string" where
  "glob_dirname root_dir =
     (if list_all (\<lambda>c. c = CHR ''/'') root_dir then root_dir
      else rev (dropWhile (\<lambda>c. c = CHR ''/'') (rev root_dir)))"

definition glob_json :: "(string \<Rightarrow> string list) \<Rightarrow> string \<Rightarrow> entry list \<Rightarrow> string list" where
  "glob_json expand root_dir es =
     (if has_magic (glob_dirname root_dir) then expand (os_path_join root_dir ''*.json'')
      else map (os_path_join (glob_dirname root_dir))
             (filter (\<lambda>n. \<not> ishidden n \<and> endswith n ''.json'') (map entry_name es)))"

text \<open>
  Lines 110 to 115 of \<open>process_data\<close>: the list \<open>all_files\<close>. The file system is
  three parameters: \<open>fs\<close> gives the directory found at a path, if there is one;
  \<open>abspath\<close> is \<open>os.path.abspath\<close> in the working directory of the process; \<open>expand\<close>
  is the expansion by \<open>glob\<close> of a pattern whose directory part has wildcard characters.
\<close>

definition get_files ::
  "(string \<Rightarrow> string list) \<Rightarrow> (string \<Rightarrow> string) \<Rightarrow> (string \<Rightarrow> entry list option) \<Rightarrow> string \<Rightarrow> string list" where
  "get_files expand abspath fs filepath =
     (case fs filepath of
        None \<Rightarrow> []
      | Some es \<Rightarrow>
          concat (map (\<lambda>(root_dir, listing). map abspath (glob_json expand root_dir listing))
                    (os_walk filepath es)))"

section \<open>The batch runner\<close>

definition digit_char :: "nat \<Rightarrow> char" where
  "digit_char n = ''0123456789'' ! n"

fun str_nat :: "nat \<Rightarrow> string" where
  "str_nat n = (if n < 10 then [digit_char n] else str_nat (n div 10) @ [digit_char (n mod 10)])"

declare str_nat.simps [simp del]

definition found_line :: "nat \<Rightarrow> string \<Rightarrow> string" where
  "found_line num_files filepath = str_nat num_files @ '' files found in '' @ filepath"

definition progress_line :: "nat \<Rightarrow> nat \<Rightarrow> string" where
  "progress_line i num_files = str_nat i @ ''/'' @ str_nat num_files @ '' files processed.''"

definition db_error_line :: "string \<Rightarrow> string \<Rightarrow> string" where
  "db_error_line datafile func_name =
     ''Database Error! (psycopg2).'' @ ''Error processing file '' @ [CHR 0x27] @ datafile @
     [CHR 0x27] @ '' with function '' @ [CHR 0x27] @ func_name @ [CHR 0x27] @ ''.''"

text \<open>The \<open>try\<close> block of the loop: the transformer, the commit, the progress line.\<close>

definition try_block ::
  "'s driver \<Rightarrow> ('s driver \<Rightarrow> string \<Rightarrow> 's world \<Rightarrow> exn option \<times> 's world) \<Rightarrow> nat \<Rightarrow> nat \<Rightarrow> string
     \<Rightarrow> 's world \<Rightarrow> exn option \<times> 's world" where
  "try_block conn func num_files i datafile w =
     (case func conn datafile w of
        (Some e, w1) \<Rightarrow> (Some e, w1)
      | (None, w1) \<Rightarrow>
          (case commit conn w1 of
             (Some e, w2) \<Rightarrow> (Some e, w2)
           | (None, w2) \<Rightarrow> (None, print (progress_line i num_files) w2)))"

text \<open>One turn of the loop: the \<open>try\<close> block and its \<open>except psycopg2.Error\<close> clause.\<close>

definition process_one ::
  "'s driver \<Rightarrow> ('s driver \<Rightarrow> string \<Rightarrow> 's world \<Rightarrow> exn option \<times> 's world) \<Rightarrow> string \<Rightarrow> nat
     \<Rightarrow> nat \<times> string \<Rightarrow> 's world \<Rightarrow> exn option \<times> 's world" where
  "process_one conn func func_name num_files item w =
     (case item of (i, datafile) \<Rightarrow>
        (case try_block conn func num_files i datafile w of
           (None, w1) \<Rightarrow> (None, w1)
         | (Some e, w1) \<Rightarrow>
             (if is_psycopg2_Error e
              then rollback conn (print (str_exn e) (print (db_error_line datafile func_name) w1))
              else (Some e, w1))))"

definition process_files ::
  "'s driver \<Rightarrow> ('s driver \<Rightarrow> string \<Rightarrow> 's world \<Rightarrow> exn option \<times> 's world) \<Rightarrow> string \<Rightarrow> nat
     \<Rightarrow> nat \<Rightarrow> string list \<Rightarrow> 's world \<Rightarrow> exn option \<times> 's world" where
  "process_files conn func func_name num_files start all_files w =
     for_each (process_one conn func func_name num_files) (enumerate start all_files) w"

text \<open>
  \<open>process_data\<close>. The file system it walks is the three parameters of \<open>get_files\<close>;
  \<open>func_name\<close> is \<open>func.__name__\<close>.
\<close>

definition process_data ::
  "'s driver \<Rightarrow> (string \<Rightarrow> string list) \<Rightarrow> (string \<Rightarrow> string) \<Rightarrow> (string \<Rightarrow> entry list option)
     \<Rightarrow> string \<Rightarrow> ('s driver \<Rightarrow> string \<Rightarrow> 's world \<Rightarrow> exn option \<times> 's world) \<Rightarrow> string
     \<Rightarrow> 's world \<Rightarrow> exn option \<times> 's world" where
  "process_data conn expand abspath fs filepath func func_name w =
     (let all_files = get_files expand abspath fs filepath;
          num_files = length all_files
      in process_files conn func func_name num_files 1 all_files
           (print (found_line num_files filepath) w))"

section \<open>The entry point\<close>

text \<open>
  The local variables \<open>conn\<close> and \<open>cur\<close> of \<open>main\<close> are bound by the two assignments of
  the \<open>try\<close> block; an assignment whose right-hand side raises binds nothing. The block
  returns which of the two are bound.
\<close>

definition connect_line :: "exn \<Rightarrow> string" where
  "connect_line e = ''Error connecting to the database:'' @ [CHR 0x0A] @ '' '' @ str_exn e"

definition main_try ::
  "'s driver \<Rightarrow> 's world \<Rightarrow> exn option \<times> (bool \<times> bool) \<times> 's world" where
  "main_try drv w =
     (case connect drv w of
        (Some e, w1) \<Rightarrow>
          (if is_psycopg2_Error e then (None, (False, False), print (connect_line e) w1)
           else (Some e, (False, False), w1))
      | (None, w1) \<Rightarrow>
          (case cursor drv w1 of
             (Some e, w2) \<Rightarrow>
               (if is_psycopg2_Error e then (None, (True, False), print (connect_line e) w2)
                else (Some e, (True, False), w2))
           | (None, w2) \<Rightarrow> (None, (True, True), w2)))"

definition main ::
  "'s driver \<Rightarrow> (string \<Rightarrow> string list) \<Rightarrow> (string \<Rightarrow> string) \<Rightarrow> (string \<Rightarrow> entry list option)
     \<Rightarrow> (string \<Rightarrow> exn + song_record list) \<Rightarrow> (string \<Rightarrow> exn + log_record list)
     \<Rightarrow> 's world \<Rightarrow> exn option \<times> 's world" where
  "main drv expand abspath fs read_songs read_logs w =
     (case main_try drv w of
        (Some e, bound, w1) \<Rightarrow> (Some e, w1)
      | (None, (conn_bound, cur_bound), w1) \<Rightarrow>
          (if \<not> cur_bound then (Some (UnboundLocalError ''cur''), w1)
           else if \<not> conn_bound then (Some (UnboundLocalError ''conn''), w1)
           else
             (case process_data drv expand abspath fs ''data/song_data''
                     (process_song_file read_songs) ''process_song_file'' w1 of
                (Some e, w2) \<Rightarrow> (Some e, w2)
              | (None, w2) \<Rightarrow>
                  (case process_data drv expand abspath fs ''data/log_data''
                          (process_log_file read_logs) ''process_log_file'' w2 of
                     (Some e, w3) \<Rightarrow> (Some e, w3)
                   | (None, w3) \<Rightarrow> close drv w3))))"

section \<open>An in-memory store\<close>

text \<open>
  A small store to run the transformers on: it keeps the rows written in the open
  transaction apart from the committed ones, answers \<open>song_select\<close> from the song rows
  by title and duration, and rejects a song whose \<open>song_id\<close> is already there, as a
  primary key does.
\<close>

record mem_db =
  committed :: "(query \<times> pyval list) list"
  pending :: "(query \<times> pyval list) list"
  fetched :: "(pyval \<times> pyval) option"

fun mem_lookup :: "(query \<times> pyval list) list \<Rightarrow> pyval \<Rightarrow> pyval \<Rightarrow> (pyval \<times> pyval) option" where
  "mem_lookup [] t d = None"
| "mem_lookup ((q, row) # rest) t d =
     (if q = song_table_insert \<and> row ! 1 = t \<and> row ! 4 = d then Some (row ! 0, row ! 2)
      else mem_lookup rest t d)"

definition mem_execute :: "query \<Rightarrow> pyval list \<Rightarrow> mem_db \<Rightarrow> exn option \<times> mem_db" where
  "mem_execute q params s =
     (if q = song_select
      then (None, s\<lparr>fetched := mem_lookup (committed s @ pending s) (params ! 0) (params ! 1)\<rparr>)
      else if q = song_table_insert \<and>
              list_ex (\<lambda>(q', row). q' = song_table_insert \<and> row ! 0 = params ! 0)
                (committed s @ pending s)
      then (Some (Psycopg2_Error ''duplicate key value violates unique constraint''), s)
      else (None, s\<lparr>pending := pending s @ [(q, params)]\<rparr>))"

definition mem_driver :: "mem_db driver" where
  "mem_driver =
     \<lparr>psycopg2_connect = (\<lambda>s. (None, s)),
      conn_cursor = (\<lambda>s. (None, s)),
      cur_execute = mem_execute,
      cur_fetchone = (\<lambda>s. (Inr (fetched s), s)),
      conn_commit = (\<lambda>s. (None, s\<lparr>committed := committed s @ pending s, pending := []\<rparr>)),
      conn_rollback = (\<lambda>s. (None, s\<lparr>pending := []\<rparr>)),
      conn_close = (\<lambda>s. (None, s))\<rparr>"

definition mem_empty :: "mem_db world" where
  "mem_empty = \<lparr>db = \<lparr>committed = [], pending = [], fetched = None\<rparr>, calls = [], stdout = []\<rparr>"

text \<open>The same store behind a server that refuses connections.\<close>

definition offline_driver :: "mem_db driver" where
  "offline_driver =
     mem_driver\<lparr>psycopg2_connect :=
       (\<lambda>s. (Some (Psycopg2_Error ''could not connect to server: Connection refused''), s))\<rparr>"

text \<open>The song file and the log record of the end-to-end scenarios.\<close>

definition song_S1 :: song_record where
  "song_S1 =
     \<lparr>song_id = PStr ''S1'', title = PStr ''T'', artist_id = PStr ''A1'', year = PInt 2000,
      duration = PFloat (361 / 2), artist_name = PStr ''N'', artist_location = PStr ''L'',
      artist_latitude = PFloat 1, artist_longitude = PFloat 2\<rparr>"

definition log_L1 :: log_record where
  "log_L1 =
     \<lparr>page = PStr ''NextSong'', ts = 1541121934796, userId = PStr ''10'',
      firstName = PStr ''A'', lastName = PStr ''B'', gender = PStr ''F'', level = PStr ''free'',
      song = PStr ''T'', length_col = PFloat (361 / 2), sessionId = PInt 5,
      location = PStr ''X'', userAgent = PStr ''Y''\<rparr>"

text \<open>
  A second song, a song whose \<open>song_id\<close> is the empty string, and the song files of a
  small data directory.
\<close>

definition song_S2 :: song_record where
  "song_S2 = song_S1\<lparr>song_id := PStr ''S2'', title := PStr ''U''\<rparr>"

definition song_S0 :: song_record where
  "song_S0 = song_S1\<lparr>song_id := PStr []\<rparr>"

definition song_files :: "string \<Rightarrow> exn + song_record list" where
  "song_files path =
     (if path = ''a.json'' then Inr [song_S1]
      else if path = ''b.json'' then Inr [song_S2]
      else if path = ''z.json'' then Inr [song_S0]
      else if path = ''empty.json'' then Inr []
      else Inl (ValueError ''Expected object or value''))"

text \<open>
  More log records: the same user with no first name, as the first record of a file
  would carry it, and a second user.
\<close>

definition log_L1_anonymous :: log_record where
  "log_L1_anonymous = log_L1\<lparr>page := PStr ''Home'', firstName := PNone\<rparr>"

definition log_L2 :: log_record where
  "log_L2 = log_L1\<lparr>userId := PStr ''12'', firstName := PStr ''C'', level := PStr ''paid''\<rparr>"

text \<open>
  A data directory: a hidden file and a subdirectory at the top, files two levels
  down. Relative paths are resolved from \<open>/srv\<close>.
\<close>

definition data_tree :: "entry list" where
  "data_tree =
     [File ''.a.json'',
      Dir ''A'' [File ''b.json'', Dir ''B'' [File ''notes.txt'', File ''c.json'']]]"

definition data_fs :: "string \<Rightarrow> entry list option" where
  "data_fs path = (if path = ''data'' then Some data_tree else None)"

definition srv_abspath :: "string \<Rightarrow> string" where
  "srv_abspath path = ''/srv/'' @ path"

text \<open>
  The two data directories of \<open>main\<close>, with one song file and one log file, and what
  \<open>read_json\<close> finds in them.
\<close>

definition sparkify_fs :: "string \<Rightarrow> entry list option" where
  "sparkify_fs path =
     (if path = ''data/song_data'' then Some [Dir ''A'' [File ''a.json'']]
      else if path = ''data/log_data'' then Some [Dir ''2018'' [Dir ''11'' [File ''l.json'']]]
      else None)"

definition sparkify_songs :: "string \<Rightarrow> exn + song_record list" where
  "sparkify_songs path =
     (if path = ''/srv/data/song_data/A/a.json'' then Inr [song_S1]
      else Inl (ValueError ''Expected object or value''))"

definition sparkify_logs :: "string \<Rightarrow> exn + log_record list" where
  "sparkify_logs path =
     (if path = ''/srv/data/log_data/2018/11/l.json'' then Inr [log_L1]
      else Inl (ValueError ''Expected object or value''))"

text \<open>The store after that song file has been loaded and committed.\<close>

definition mem_S1 :: "mem_db world" where
  "mem_S1 =
     \<lparr>db = \<lparr>committed =
             [(song_table_insert,
               [PStr ''S1'', PStr ''T'', PStr ''A1'', PInt 2000, PFloat (361 / 2)]),
              (artist_table_insert,
               [PStr ''A1'', PStr ''N'', PStr ''L'', PFloat 1, PFloat 2])],
           pending = [], fetched = None\<rparr>,
      calls = [], stdout = []\<rparr>"

section \<open>Calls issued to the store\<close>

lemma execute_calls:
  "execute cur q params w = (r, w1) \<Longrightarrow> calls w1 = calls w @ [Execute q params]"
  by (auto simp: execute_def split: prod.splits)

lemma fetchone_calls:
  "fetchone cur w = (r, w1) \<Longrightarrow> calls w1 = calls w @ [Fetchone]"
  by (auto simp: fetchone_def split: prod.splits)

lemma execute_fst:
  "fst (execute cur q params w) = fst (cur_execute cur q params (db w))"
  by (simp add: execute_def split: prod.splits)

lemma executed_append: "executed q (xs @ ys) = executed q xs @ executed q ys"
  by (induction q xs rule: executed.induct) auto

lemma executed_map_Execute:
  "executed q (map (Execute q') rows) = (if q' = q then rows else [])"
  by (induction rows) auto

lemma for_each_execute_calls:
  "for_each (execute cur q) rows w = (r, w') \<Longrightarrow>
   \<exists>k. calls w' = calls w @ map (Execute q) (take k rows) \<and> (r = None \<longrightarrow> rows = take k rows)"
proof (induction rows arbitrary: w)
  case Nil
  then show ?case by simp
next
  case (Cons row rows)
  obtain x w1 where e: "execute cur q row w = (x, w1)"
    by (cases "execute cur q row w")
  show ?case
  proof (cases x)
    case None
    with Cons.prems e have "for_each (execute cur q) rows w1 = (r, w')" by simp
    from Cons.IH [OF this] obtain k where
      k: "calls w' = calls w1 @ map (Execute q) (take k rows)" "r = None \<longrightarrow> rows = take k rows"
      by blast
    have "calls w' = calls w @ map (Execute q) (take (Suc k) (row # rows))"
      using k(1) execute_calls [OF e] by simp
    moreover have "r = None \<longrightarrow> row # rows = take (Suc k) (row # rows)"
      using k(2) by simp
    ultimately show ?thesis by blast
  next
    case (Some ex)
    with Cons.prems e have "r = Some ex" "w' = w1" by simp_all
    then have "calls w' = calls w @ map (Execute q) (take 1 (row # rows))"
      using execute_calls [OF e] by simp
    with \<open>r = Some ex\<close> show ?thesis by blast
  qed
qed

lemma for_each_execute_accepted:
  assumes "\<And>row s. fst (cur_execute cur q row s) = None"
  shows "fst (for_each (execute cur q) rows w) = None \<and>
         calls (snd (for_each (execute cur q) rows w)) = calls w @ map (Execute q) rows"
proof (induction rows arbitrary: w)
  case Nil
  then show ?case by simp
next
  case (Cons row rows)
  obtain x w1 where e: "execute cur q row w = (x, w1)"
    by (cases "execute cur q row w")
  then have "x = None"
    using assms [of row "db w"] execute_fst [of cur q row w] by simp
  then show ?case
    using Cons.IH [of w1] e execute_calls [OF e] by simp
qed

lemma songplay_row_calls:
  assumes "songplay_row cur row w = (r, w')"
  shows "\<exists>cs. calls w' = calls w @ cs \<and> executed time_table_insert cs = [] \<and>
               executed user_table_insert cs = []"
proof -
  obtain x w1 where e1: "execute cur song_select [song row, length_col row] w = (x, w1)"
    by (cases "execute cur song_select [song row, length_col row] w")
  note c1 = execute_calls [OF e1]
  show ?thesis
  proof (cases x)
    case (Some ex)
    with assms e1 have "w' = w1" by (simp add: songplay_row_def)
    with c1 show ?thesis by simp
  next
    case None
    obtain y w2 where e2: "fetchone cur w1 = (y, w2)"
      by (cases "fetchone cur w1")
    note c2 = fetchone_calls [OF e2]
    show ?thesis
    proof (cases y)
      case (Inl ex)
      with assms e1 e2 None have "w' = w2" by (simp add: songplay_row_def)
      with c1 c2 show ?thesis by simp
    next
      case (Inr results)
      let ?ins = "execute cur songplay_table_insert (songplay_data row results) w2"
      have "(r, w') = ?ins \<or> w' = w2"
        using assms e1 e2 None Inr
        by (cases results) (auto simp: songplay_row_def split: if_splits)
      then show ?thesis
      proof
        assume "(r, w') = ?ins"
        then have "calls w' = calls w2 @ [Execute songplay_table_insert (songplay_data row results)]"
          using execute_calls [of cur songplay_table_insert "songplay_data row results" w2 r w']
          by simp
        with c1 c2 show ?thesis by simp
      next
        assume "w' = w2"
        with c1 c2 show ?thesis by simp
      qed
    qed
  qed
qed

lemma songplay_loop_calls:
  "for_each (songplay_row cur) rows w = (r, w') \<Longrightarrow>
   \<exists>cs. calls w' = calls w @ cs \<and> executed time_table_insert cs = [] \<and>
        executed user_table_insert cs = []"
proof (induction rows arbitrary: w)
  case Nil
  then show ?case by simp
next
  case (Cons row rows)
  obtain x w1 where e: "songplay_row cur row w = (x, w1)"
    by (cases "songplay_row cur row w")
  from songplay_row_calls [OF e] obtain cs where
    cs: "calls w1 = calls w @ cs" "executed time_table_insert cs = []"
      "executed user_table_insert cs = []"
    by blast
  show ?case
  proof (cases x)
    case None
    with Cons.prems e have "for_each (songplay_row cur) rows w1 = (r, w')" by simp
    from Cons.IH [OF this] obtain cs' where
      "calls w' = calls w1 @ cs'" "executed time_table_insert cs' = []"
      "executed user_table_insert cs' = []"
      by blast
    with cs have "calls w' = calls w @ (cs @ cs') \<and> executed time_table_insert (cs @ cs') = [] \<and>
        executed user_table_insert (cs @ cs') = []"
      by (simp add: executed_append)
    then show ?thesis by blast
  next
    case (Some ex)
    with Cons.prems e have "w' = w1" by simp
    with cs show ?thesis by blast
  qed
qed

section \<open>Frames of the log transformer\<close>






lemma process_log_file_calls:
  assumes "read_json f = Inr df"
  shows "\<exists>j k cs.
           calls (snd (process_log_file read_json cur f w)) =
             calls w @ map (Execute time_table_insert) (take j (time_df df)) @
             map (Execute user_table_insert) (take k (user_df df)) @ cs \<and>
           executed time_table_insert cs = [] \<and> executed user_table_insert cs = [] \<and>
           ((\<forall>row s. fst (cur_execute cur time_table_insert row s) = None) \<longrightarrow>
              take j (time_df df) = time_df df) \<and>
           ((\<forall>row s. fst (cur_execute cur time_table_insert row s) = None) \<and>
            (\<forall>row s. fst (cur_execute cur user_table_insert row s) = None) \<longrightarrow>
              take k (user_df df) = user_df df)"
proof -
  let ?T = "\<forall>row s. fst (cur_execute cur time_table_insert row s) = None"
  let ?U = "\<forall>row s. fst (cur_execute cur user_table_insert row s) = None"
  obtain x w1 where t: "for_each (execute cur time_table_insert) (time_df df) w = (x, w1)"
    by (cases "for_each (execute cur time_table_insert) (time_df df) w")
  from for_each_execute_calls [OF t] obtain j where
    c1: "calls w1 = calls w @ map (Execute time_table_insert) (take j (time_df df))"
    and j: "x = None \<longrightarrow> time_df df = take j (time_df df)"
    by blast
  have xT: "?T \<longrightarrow> x = None"
    using for_each_execute_accepted [of cur time_table_insert "time_df df" w] t by auto
  show ?thesis
  proof (cases x)
    case (Some ex)
    with assms t have "snd (process_log_file read_json cur f w) = w1"
      by (simp add: process_log_file_def)
    with c1 have a: "calls (snd (process_log_file read_json cur f w)) =
         calls w @ map (Execute time_table_insert) (take j (time_df df)) @
         map (Execute user_table_insert) (take 0 (user_df df)) @ []"
      by simp
    have nT: "\<not> ?T" using xT Some by auto
    have "executed time_table_insert [] = [] \<and> executed user_table_insert [] = [] \<and>
       (?T \<longrightarrow> take j (time_df df) = time_df df) \<and>
       (?T \<and> ?U \<longrightarrow> take 0 (user_df df) = user_df df)"
      using nT by auto
    with a show ?thesis by blast
  next
    case None
    obtain y w2 where u: "for_each (execute cur user_table_insert) (user_df df) w1 = (y, w2)"
      by (cases "for_each (execute cur user_table_insert) (user_df df) w1")
    from for_each_execute_calls [OF u] obtain k where
      c2: "calls w2 = calls w1 @ map (Execute user_table_insert) (take k (user_df df))"
      and k: "y = None \<longrightarrow> user_df df = take k (user_df df)"
      by blast
    have yU: "?U \<longrightarrow> y = None"
      using for_each_execute_accepted [of cur user_table_insert "user_df df" w1] u by auto
    have jT: "take j (time_df df) = time_df df"
      using j None by simp
    show ?thesis
    proof (cases y)
      case (Some ex)
      with assms t None u have "snd (process_log_file read_json cur f w) = w2"
        by (simp add: process_log_file_def)
      with c1 c2 have a: "calls (snd (process_log_file read_json cur f w)) =
           calls w @ map (Execute time_table_insert) (take j (time_df df)) @
           map (Execute user_table_insert) (take k (user_df df)) @ []"
        by simp
      have nU: "\<not> ?U" using yU Some by auto
      have "executed time_table_insert [] = [] \<and> executed user_table_insert [] = [] \<and>
         (?T \<longrightarrow> take j (time_df df) = time_df df) \<and>
         (?T \<and> ?U \<longrightarrow> take k (user_df df) = user_df df)"
        using nU jT by auto
      with a show ?thesis by blast
    next
      case yNone: None
      obtain z w3 where s: "for_each (songplay_row cur) df w2 = (z, w3)"
        by (cases "for_each (songplay_row cur) df w2")
      from songplay_loop_calls [OF s] obtain cs where
        c3: "calls w3 = calls w2 @ cs" "executed time_table_insert cs = []"
          "executed user_table_insert cs = []"
        by blast
      have kU: "take k (user_df df) = user_df df"
        using k yNone by simp
      from assms t None u yNone s have "snd (process_log_file read_json cur f w) = w3"
        by (simp add: process_log_file_def)
      with c1 c2 c3(1) have a: "calls (snd (process_log_file read_json cur f w)) =
           calls w @ map (Execute time_table_insert) (take j (time_df df)) @
           map (Execute user_table_insert) (take k (user_df df)) @ cs"
        by simp
      have "executed time_table_insert cs = [] \<and> executed user_table_insert cs = [] \<and>
         (?T \<longrightarrow> take j (time_df df) = time_df df) \<and>
         (?T \<and> ?U \<longrightarrow> take k (user_df df) = user_df df)"
        using c3 jT kU by simp
      with a show ?thesis by blast
    qed
  qed
qed


lemma user_rows_executed:
  assumes "read_json f = Inr df"
  shows "\<exists>k. executed user_table_insert (calls (snd (process_log_file read_json cur f w))) =
             executed user_table_insert (calls w) @ take k (user_df df) \<and>
           ((\<forall>row s. fst (cur_execute cur time_table_insert row s) = None) \<and>
            (\<forall>row s. fst (cur_execute cur user_table_insert row s) = None) \<longrightarrow>
              take k (user_df df) = user_df df)"
proof -
  from process_log_file_calls [of read_json f df cur w] assms obtain j k cs where
    "calls (snd (process_log_file read_json cur f w)) =
       calls w @ map (Execute time_table_insert) (take j (time_df df)) @
       map (Execute user_table_insert) (take k (user_df df)) @ cs"
    "executed user_table_insert cs = []"
    "(\<forall>row s. fst (cur_execute cur time_table_insert row s) = None) \<and>
     (\<forall>row s. fst (cur_execute cur user_table_insert row s) = None) \<longrightarrow>
       take k (user_df df) = user_df df"
    by blast
  then have "executed user_table_insert (calls (snd (process_log_file read_json cur f w))) =
             executed user_table_insert (calls w) @ take k (user_df df) \<and>
           ((\<forall>row s. fst (cur_execute cur time_table_insert row s) = None) \<and>
            (\<forall>row s. fst (cur_execute cur user_table_insert row s) = None) \<longrightarrow>
              take k (user_df df) = user_df df)"
    by (simp add: executed_append executed_map_Execute)
  then show ?thesis by blast
qed

lemma py_eq_sym: "py_eq a b = py_eq b a"
  by (cases a; cases b) auto

lemma py_eq_trans: "py_eq a b \<Longrightarrow> py_eq b c \<Longrightarrow> py_eq a c"
  by (cases a; cases b; cases c) auto

lemma all_less_Suc_split: "(\<forall>j<Suc i. P j) = (P 0 \<and> (\<forall>j<i. P (Suc j)))"
  by (auto simp: less_Suc_eq_0_disj)

lemma drop_duplicates_seen_index:
  "drop_duplicates_seen key seen rs =
     map (nth rs)
       (filter (\<lambda>i. \<not> list_ex (py_eq (key (rs ! i))) seen \<and>
                    (\<forall>j<i. \<not> py_eq (key (rs ! j)) (key (rs ! i))))
          [0..<length rs])"
proof (induction rs arbitrary: seen)
  case Nil
  then show ?case by simp
next
  case (Cons r rs)
  let ?P = "\<lambda>sn xs i. \<not> list_ex (py_eq (key (xs ! i))) sn \<and>
                    (\<forall>j<i. \<not> py_eq (key (xs ! j)) (key (xs ! i)))"
  have upt: "[0..<length (r # rs)] = 0 # map Suc [0..<length rs]"
    by (simp add: upt_conv_Cons map_Suc_upt del: upt_Suc)
  have tail: "map (nth (r # rs)) (filter (?P seen (r # rs)) (map Suc [0..<length rs])) =
              map (nth rs) (filter (\<lambda>i. ?P seen (r # rs) (Suc i)) [0..<length rs])"
    by (simp add: filter_map comp_def)
  show ?case
  proof (cases "list_ex (py_eq (key r)) seen")
    case True
    have "\<And>i. ?P seen (r # rs) (Suc i) = ?P seen rs i"
    proof -
      fix i
      have "\<not> list_ex (py_eq (key (rs ! i))) seen \<Longrightarrow> \<not> py_eq (key r) (key (rs ! i))"
      proof
        assume n: "\<not> list_ex (py_eq (key (rs ! i))) seen" and e: "py_eq (key r) (key (rs ! i))"
        from True obtain s where s: "s \<in> set seen" "py_eq (key r) s"
          by (auto simp: list_ex_iff)
        from e have "py_eq (key (rs ! i)) (key r)" by (simp add: py_eq_sym)
        from py_eq_trans [OF this s(2)] s(1) n show False
          by (auto simp: list_ex_iff)
      qed
      then show "?P seen (r # rs) (Suc i) = ?P seen rs i"
        by (auto simp: all_less_Suc_split)
    qed
    then have "map (nth rs) (filter (\<lambda>i. ?P seen (r # rs) (Suc i)) [0..<length rs]) =
               map (nth rs) (filter (?P seen rs) [0..<length rs])"
      by simp
    with True tail upt Cons.IH [of seen] show ?thesis
      by simp
  next
    case False
    have "\<And>i. ?P seen (r # rs) (Suc i) = ?P (key r # seen) rs i"
      by (auto simp: all_less_Suc_split py_eq_sym)
    then have "map (nth rs) (filter (\<lambda>i. ?P seen (r # rs) (Suc i)) [0..<length rs]) =
               map (nth rs) (filter (?P (key r # seen) rs) [0..<length rs])"
      by simp
    with False tail upt Cons.IH [of "key r # seen"] show ?thesis
      by simp
  qed
qed

lemma user_columns_key: "user_columns r ! 0 = userId r"
  by (simp add: user_columns_def)

lemma user_df_index:
  "user_df df =
     map (\<lambda>i. user_columns (df ! i))
       (filter (\<lambda>i. (\<forall>j<i. \<not> py_eq (userId (df ! j)) (userId (df ! i))) \<and>
                    \<not> list_ex isna (user_columns (df ! i)))
          [0..<length df])"
proof -
  let ?rs = "map user_columns df"
  let ?F = "\<lambda>i. \<not> list_ex (py_eq (?rs ! i ! 0)) [] \<and> (\<forall>j<i. \<not> py_eq (?rs ! j ! 0) (?rs ! i ! 0))"
  let ?G = "\<lambda>i. (\<forall>j<i. \<not> py_eq (userId (df ! j)) (userId (df ! i))) \<and>
                    \<not> list_ex isna (user_columns (df ! i))"
  have "user_df df = filter (\<lambda>row. \<not> list_ex isna row) (map (nth ?rs) (filter ?F [0..<length ?rs]))"
    by (simp only: user_df_def dropna_def drop_duplicates_def drop_duplicates_seen_index)
  also have "\<dots> = map (nth ?rs) (filter (\<lambda>i. ?F i \<and> \<not> list_ex isna (?rs ! i)) [0..<length ?rs])"
    by (simp add: filter_map comp_def conj_commute)
  also have "filter (\<lambda>i. ?F i \<and> \<not> list_ex isna (?rs ! i)) [0..<length ?rs] =
             filter ?G [0..<length df]"
    by (rule filter_cong) (auto simp: user_columns_key)
  also have "map (nth ?rs) (filter ?G [0..<length df]) =
             map (\<lambda>i. user_columns (df ! i)) (filter ?G [0..<length df])"
    by (rule map_cong) auto
  finally show ?thesis .
qed

lemma user_df_no_null: "row \<in> set (user_df df) \<Longrightarrow> v \<in> set row \<Longrightarrow> \<not> isna v"
  by (auto simp: user_df_def dropna_def list_ex_iff)

lemma user_df_distinct_keys:
  assumes "i < j" and "j < length (user_df df)"
  shows "\<not> py_eq (user_df df ! i ! 0) (user_df df ! j ! 0)"
proof -
  let ?G = "\<lambda>i. (\<forall>j<i. \<not> py_eq (userId (df ! j)) (userId (df ! i))) \<and>
                    \<not> list_ex isna (user_columns (df ! i))"
  let ?is = "filter ?G [0..<length df]"
  have len: "length (user_df df) = length ?is"
    by (subst user_df_index) simp
  have ij: "i < length ?is" "j < length ?is"
    using assms len by simp_all
  have row: "\<And>k. k < length ?is \<Longrightarrow> user_df df ! k = user_columns (df ! (?is ! k))"
    by (subst user_df_index) simp
  have sorted: "sorted_wrt (<) ?is"
    by (rule sorted_wrt_filter) (simp add: sorted_wrt_upt)
  then have lt: "?is ! i < ?is ! j"
    using assms(1) ij by (simp add: sorted_wrt_iff_nth_less)
  from nth_mem [OF ij(2)] have "?is ! j \<in> {x \<in> set [0..<length df]. ?G x}"
    by (simp only: set_filter)
  then have "?G (?is ! j)" by blast
  with lt have "\<not> py_eq (userId (df ! (?is ! i))) (userId (df ! (?is ! j)))"
    by blast
  then show ?thesis
    using ij by (simp add: row user_columns_key)
qed

lemma user_df_first_null:
  assumes "i < length df"
      and "\<forall>j<i. \<not> py_eq (userId (df ! j)) (userId (df ! i))"
      and "list_ex isna (user_columns (df ! i))"
      and "row \<in> set (user_df df)"
  shows "\<not> py_eq (row ! 0) (userId (df ! i))"
proof
  assume e: "py_eq (row ! 0) (userId (df ! i))"
  from assms(4) obtain m where m: "m < length df" "row = user_columns (df ! m)"
    "\<forall>j<m. \<not> py_eq (userId (df ! j)) (userId (df ! m))" "\<not> list_ex isna (user_columns (df ! m))"
    by (subst (asm) user_df_index) auto
  from e m(2) have em: "py_eq (userId (df ! m)) (userId (df ! i))"
    by (simp add: user_columns_key)
  consider "m < i" | "m = i" | "i < m" by linarith
  then show False
  proof cases
    case 1
    with assms(2) em show False by blast
  next
    case 2
    with assms(3) m(4) show False by simp
  next
    case 3
    with m(3) em show False by (auto simp: py_eq_sym)
  qed
qed

section \<open>The loop of the batch runner\<close>

lemma for_each_append:
  "for_each body (xs @ ys) w =
     (case for_each body xs w of
        (None, w1) \<Rightarrow> for_each body ys w1
      | (Some e, w1) \<Rightarrow> (Some e, w1))"
  by (induction xs arbitrary: w) (auto split: prod.splits option.splits)

lemma process_files_append:
  "process_files conn func func_name n i (xs @ ys) w =
     (case process_files conn func func_name n i xs w of
        (None, w1) \<Rightarrow> process_files conn func func_name n (i + length xs) ys w1
      | (Some e, w1) \<Rightarrow> (Some e, w1))"
  unfolding process_files_def by (simp add: enumerate_append_eq for_each_append)

lemma process_files_Cons:
  "process_files conn func func_name n i (f # fs) w =
     (case process_one conn func func_name n (i, f) w of
        (None, w1) \<Rightarrow> process_files conn func func_name n (Suc i) fs w1
      | (Some e, w1) \<Rightarrow> (Some e, w1))"
  unfolding process_files_def by simp

lemma commit_stdout: "commit conn w = (r, w1) \<Longrightarrow> stdout w1 = stdout w"
  by (auto simp: commit_def split: prod.splits)

lemma rollback_stdout: "rollback conn w = (r, w1) \<Longrightarrow> stdout w1 = stdout w"
  by (auto simp: rollback_def split: prod.splits)

lemma rollback_calls: "rollback conn w = (r, w1) \<Longrightarrow> calls w1 = calls w @ [Rollback]"
  by (auto simp: rollback_def split: prod.splits)

lemma print_calls: "calls (print l w) = calls w"
  by (simp add: print_def)

lemma print_stdout: "stdout (print l w) = stdout w @ [l]"
  by (simp add: print_def)

section \<open>Directories reached by the walk\<close>





section \<open>The model at work\<close>

text \<open>
  The calendar fields at some known instants: the epoch (a Thursday), the last
  millisecond of a leap day, a Sunday that belongs to week 53 of the year before, a
  31 December that belongs to week 1 of the year after, and an hour before the epoch.
\<close>

lemma calendar_known_dates:
  "time_df [log_L1\<lparr>ts := 0\<rparr>, log_L1\<lparr>ts := 1583020799999\<rparr>, log_L1\<lparr>ts := 1609632000000\<rparr>,
            log_L1\<lparr>ts := 1577750400000\<rparr>, log_L1\<lparr>ts := - 3600000\<rparr>] =
     [[PTimestamp 0, PInt 0, PInt 1, PInt 1, PInt 1, PInt 1970, PInt 3],
      [PTimestamp 1583020799999, PInt 23, PInt 29, PInt 9, PInt 2, PInt 2020, PInt 5],
      [PTimestamp 1609632000000, PInt 0, PInt 3, PInt 53, PInt 1, PInt 2021, PInt 6],
      [PTimestamp 1577750400000, PInt 0, PInt 31, PInt 1, PInt 12, PInt 2019, PInt 1],
      [PTimestamp (- 3600000), PInt 23, PInt 31, PInt 1, PInt 12, PInt 1969, PInt 2]]"
  by code_simp

lemma dt_hour_range: "0 \<le> dt_hour ms \<and> dt_hour ms < 24"
proof -
  have "0 \<le> ms mod 86400000" "ms mod 86400000 < 86400000"
    by simp_all
  then show ?thesis
    unfolding dt_hour_def by arith
qed

lemma dt_weekday_range: "0 \<le> dt_weekday ms \<and> dt_weekday ms < 7"
  by (simp add: dt_weekday_def)

text \<open>
  The two end-to-end scenarios of the specification in one run of \<open>main\<close>: the song
  file gives the song row and the artist row, and the log record, matched against that
  song, gives one songplay row with \<open>song_id\<close> S1, \<open>artist_id\<close> A1 and \<open>user_id\<close> 10.
\<close>

lemma end_to_end_scenario:
  "main mem_driver (\<lambda>p. []) srv_abspath sparkify_fs sparkify_songs sparkify_logs mem_empty =
     (None,
      \<lparr>db = \<lparr>committed =
              [(song_table_insert,
                [PStr ''S1'', PStr ''T'', PStr ''A1'', PInt 2000, PFloat (361 / 2)]),
               (artist_table_insert,
                [PStr ''A1'', PStr ''N'', PStr ''L'', PFloat 1, PFloat 2]),
               (time_table_insert,
                [PTimestamp 1541121934796, PInt 1, PInt 2, PInt 44, PInt 11, PInt 2018, PInt 4]),
               (user_table_insert,
                [PStr ''10'', PStr ''A'', PStr ''B'', PStr ''F'', PStr ''free'']),
               (songplay_table_insert,
                [PInt 5, PTimestamp 1541121934796, PStr ''10'', PStr ''free'', PStr ''S1'',
                 PStr ''A1'', PStr ''X'', PStr ''Y''])],
            pending = [], fetched = Some (PStr ''S1'', PStr ''A1'')\<rparr>,
       calls =
         [Connect, Cursor,
          Execute song_table_insert
            [PStr ''S1'', PStr ''T'', PStr ''A1'', PInt 2000, PFloat (361 / 2)],
          Execute artist_table_insert [PStr ''A1'', PStr ''N'', PStr ''L'', PFloat 1, PFloat 2],
          Commit,
          Execute time_table_insert
            [PTimestamp 1541121934796, PInt 1, PInt 2, PInt 44, PInt 11, PInt 2018, PInt 4],
          Execute user_table_insert
            [PStr ''10'', PStr ''A'', PStr ''B'', PStr ''F'', PStr ''free''],
          Execute song_select [PStr ''T'', PFloat (361 / 2)],
          Fetchone,
          Execute songplay_table_insert
            [PInt 5, PTimestamp 1541121934796, PStr ''10'', PStr ''free'', PStr ''S1'',
             PStr ''A1'', PStr ''X'', PStr ''Y''],
          Commit, Close],
       stdout =
         [''1 files found in data/song_data'', ''1/1 files processed.'',
          ''1 files found in data/log_data'', ''1/1 files processed.'']\<rparr>)"
  by code_simp

section \<open>The song transformer: properties\<close>





section \<open>The log transformer: properties\<close>






text \<open>
  C5. The user rows a log file makes the transformer write are an initial segment of
  the frame \<open>user_df\<close>, and all of it when the store accepts the time and user inserts.
  No two of them have the same \<open>user_id\<close> (their first cell), and none holds a null.
  The frame itself is, in file order, the user columns of the records that are the
  first to carry their \<open>userId\<close> and have no null among these columns.
\<close>

theorem user_rows_written:
  assumes "read_json f = Inr df"
  shows "(let new = drop (length (executed user_table_insert (calls w)))
                      (executed user_table_insert
                         (calls (snd (process_log_file read_json cur f w))))
          in prefix new (user_df df) \<and>
             ((\<forall>row s. fst (cur_execute cur time_table_insert row s) = None) \<and>
              (\<forall>row s. fst (cur_execute cur user_table_insert row s) = None) \<longrightarrow>
                new = user_df df) \<and>
             (\<forall>i j. i < j \<and> j < length new \<longrightarrow> \<not> py_eq (new ! i ! 0) (new ! j ! 0)) \<and>
             (\<forall>row \<in> set new. \<forall>v \<in> set row. \<not> isna v)) \<and>
         user_df df =
           map (\<lambda>i. user_columns (df ! i))
             (filter (\<lambda>i. (\<forall>j<i. \<not> py_eq (userId (df ! j)) (userId (df ! i))) \<and>
                          \<not> list_ex isna (user_columns (df ! i)))
                [0..<length df])"
proof -
  let ?T = "\<forall>row s. fst (cur_execute cur time_table_insert row s) = None"
  let ?U = "\<forall>row s. fst (cur_execute cur user_table_insert row s) = None"
  let ?new = "drop (length (executed user_table_insert (calls w)))
                (executed user_table_insert (calls (snd (process_log_file read_json cur f w))))"
  from user_rows_executed [of read_json f df cur w] assms obtain k where
    k: "executed user_table_insert (calls (snd (process_log_file read_json cur f w))) =
          executed user_table_insert (calls w) @ take k (user_df df)"
    and all: "?T \<and> ?U \<longrightarrow> take k (user_df df) = user_df df"
    by blast
  have new: "?new = take k (user_df df)"
    by (simp add: k)
  have p1: "prefix ?new (user_df df)"
    by (simp only: new take_is_prefix)
  have p2: "?T \<and> ?U \<longrightarrow> ?new = user_df df"
    using all by (simp only: new)
  have p3: "\<forall>i j. i < j \<and> j < length ?new \<longrightarrow> \<not> py_eq (?new ! i ! 0) (?new ! j ! 0)"
  proof (intro allI impI)
    fix i j
    assume a: "i < j \<and> j < length ?new"
    then have "j < length (user_df df)" "i < j" "j < k"
      by (simp_all add: new)
    then show "\<not> py_eq (?new ! i ! 0) (?new ! j ! 0)"
      using user_df_distinct_keys [of i j df] by (simp add: new)
  qed
  have p4: "\<forall>row \<in> set ?new. \<forall>v \<in> set row. \<not> isna v"
    using user_df_no_null [of _ df] by (auto simp only: new dest: in_set_takeD)
  show ?thesis
    unfolding Let_def using p1 p2 p3 p4 user_df_index [of df] by blast
qed

theorem user_rows_written_witness:
  "executed user_table_insert
     (calls (snd (process_log_file (\<lambda>p. Inr [log_L1, log_L1_anonymous, log_L2, log_L1])
                    mem_driver ''data/log_data/l.json'' mem_S1))) =
   [[PStr ''10'', PStr ''A'', PStr ''B'', PStr ''F'', PStr ''free''],
    [PStr ''12'', PStr ''C'', PStr ''B'', PStr ''F'', PStr ''paid'']]"
proof -
  let ?df = "[log_L1, log_L1_anonymous, log_L2, log_L1]"
  have accepted:
    "(\<forall>row s. fst (cur_execute mem_driver time_table_insert row s) = None) \<and>
     (\<forall>row s. fst (cur_execute mem_driver user_table_insert row s) = None)"
    by (simp add: mem_driver_def mem_execute_def)
  have before: "executed user_table_insert (calls mem_S1) = []"
    by (simp add: mem_S1_def)
  have rows: "user_df ?df =
     [[PStr ''10'', PStr ''A'', PStr ''B'', PStr ''F'', PStr ''free''],
      [PStr ''12'', PStr ''C'', PStr ''B'', PStr ''F'', PStr ''paid'']]"
    by code_simp
  from user_rows_written [of "\<lambda>p. Inr ?df" "''data/log_data/l.json''" ?df mem_S1 mem_driver,
      OF refl]
  have "drop (length (executed user_table_insert (calls mem_S1)))
          (executed user_table_insert
             (calls (snd (process_log_file (\<lambda>p. Inr ?df) mem_driver ''data/log_data/l.json''
                mem_S1)))) = user_df ?df"
    unfolding Let_def using accepted by blast
  then show ?thesis
    by (simp only: before rows list.size drop_0)
qed

text \<open>
  C10. When the first record of a log file that carries some \<open>userId\<close> has a null
  among its user columns, the file makes the transformer write no user row with that
  \<open>user_id\<close>, whatever the later records with the same \<open>userId\<close> hold: the duplicates
  are dropped before the rows with nulls are.
\<close>

theorem first_null_record_drops_user:
  assumes "read_json f = Inr df"
      and "i < length df"
      and "\<forall>j<i. \<not> py_eq (userId (df ! j)) (userId (df ! i))"
      and "list_ex isna (user_columns (df ! i))"
  shows "\<forall>row \<in> set (drop (length (executed user_table_insert (calls w)))
                       (executed user_table_insert
                          (calls (snd (process_log_file read_json cur f w))))).
           \<not> py_eq (row ! 0) (userId (df ! i))"
proof -
  from user_rows_executed [of read_json f df cur w] assms(1) obtain k where
    k: "executed user_table_insert (calls (snd (process_log_file read_json cur f w))) =
          executed user_table_insert (calls w) @ take k (user_df df)"
    by blast
  have "\<And>row. row \<in> set (take k (user_df df)) \<Longrightarrow> \<not> py_eq (row ! 0) (userId (df ! i))"
    using user_df_first_null [OF assms(2) assms(3) assms(4)] by (blast dest: in_set_takeD)
  then show ?thesis
    by (simp add: k)
qed

theorem first_null_record_drops_user_witness:
  "list_all (\<lambda>row. \<not> py_eq (row ! 0) (PStr ''10''))
     (drop (length (executed user_table_insert (calls mem_S1)))
        (executed user_table_insert
           (calls (snd (process_log_file (\<lambda>p. Inr [log_L1_anonymous, log_L1, log_L2]) mem_driver
                          ''data/log_data/l.json'' mem_S1)))))"
proof -
  let ?df = "[log_L1_anonymous, log_L1, log_L2]"
  have first: "\<forall>j<0. \<not> py_eq (userId (?df ! j)) (userId (?df ! 0))"
    by simp
  have null: "list_ex isna (user_columns (?df ! 0))"
    by (simp add: user_columns_def log_L1_anonymous_def log_L1_def)
  have key: "userId (?df ! 0) = PStr ''10''"
    by (simp add: log_L1_anonymous_def log_L1_def)
  from first_null_record_drops_user [of "\<lambda>p. Inr ?df" "''data/log_data/l.json''" ?df 0
      mem_S1 mem_driver, OF refl _ first null]
  show ?thesis
    by (simp only: key list_all_iff list.size) simp
qed

section \<open>The batch runner: properties\<close>

text \<open>
  C2, as the claim states it, fails: the handler of the loop is
  \<open>except psycopg2.Error\<close>, so an exception of another kind ends the loop. Here the
  first of two song files does not parse: \<open>read_json\<close> raises \<open>ValueError\<close>, the batch
  ends with it, nothing is rolled back and the second file, a good one, is never read.
\<close>

theorem non_store_error_ends_batch:
  "process_files mem_driver (process_song_file song_files) ''process_song_file'' 2 1
     [''bad.json'', ''a.json''] mem_empty =
   (Some (ValueError ''Expected object or value''), mem_empty)"
  by code_simp

text \<open>
  C2, amended. Let the files before file N have been processed. If the \<open>try\<close> block of
  file N raises a \<open>psycopg2.Error\<close> (from the transformer or from the commit) and the
  rollback does not raise in turn, then the rollback is the next call issued and the
  files after N are processed from the state it leaves, with the counter one further:
  the batch goes on. If the block raises an exception of another kind, the batch ends
  with it.
\<close>

theorem store_error_contained:
  assumes "process_files conn func func_name n i pre w = (None, w0)"
  shows "(try_block conn func n (i + length pre) f w0 = (Some (Psycopg2_Error m), w1) \<and>
          rollback conn (print m (print (db_error_line f func_name) w1)) = (None, w2) \<longrightarrow>
            process_files conn func func_name n i (pre @ f # post) w =
              process_files conn func func_name n (Suc (i + length pre)) post w2 \<and>
            calls w2 = calls w1 @ [Rollback]) \<and>
         (try_block conn func n (i + length pre) f w0 = (Some e, w1) \<and> \<not> is_psycopg2_Error e \<longrightarrow>
            process_files conn func func_name n i (pre @ f # post) w = (Some e, w1))"
proof (intro conjI impI)
  assume a: "try_block conn func n (i + length pre) f w0 = (Some (Psycopg2_Error m), w1) \<and>
          rollback conn (print m (print (db_error_line f func_name) w1)) = (None, w2)"
  then have "process_one conn func func_name n (i + length pre, f) w0 = (None, w2)"
    by (simp add: process_one_def)
  then show "process_files conn func func_name n i (pre @ f # post) w =
              process_files conn func func_name n (Suc (i + length pre)) post w2"
    using assms by (simp add: process_files_append process_files_Cons)
  from a show "calls w2 = calls w1 @ [Rollback]"
    using rollback_calls [of conn "print m (print (db_error_line f func_name) w1)" None w2]
    by (simp add: print_calls)
next
  assume "try_block conn func n (i + length pre) f w0 = (Some e, w1) \<and> \<not> is_psycopg2_Error e"
  then have "process_one conn func func_name n (i + length pre, f) w0 = (Some e, w1)"
    by (simp add: process_one_def)
  then show "process_files conn func func_name n i (pre @ f # post) w = (Some e, w1)"
    using assms by (simp add: process_files_append process_files_Cons)
qed

theorem store_error_contained_witness:
  "process_files mem_driver (process_song_file song_files) ''process_song_file'' 2 1
     [''a.json'', ''b.json''] mem_S1 =
   process_files mem_driver (process_song_file song_files) ''process_song_file'' 2 2 [''b.json'']
     (snd (rollback mem_driver
        (print ''duplicate key value violates unique constraint''
           (print (db_error_line ''a.json'' ''process_song_file'')
              (snd (try_block mem_driver (process_song_file song_files) 2 1 ''a.json'' mem_S1)))))) \<and>
   calls (snd (process_files mem_driver (process_song_file song_files) ''process_song_file'' 2 1
     [''a.json'', ''b.json''] mem_S1)) =
   [Execute song_table_insert [PStr ''S1'', PStr ''T'', PStr ''A1'', PInt 2000, PFloat (361 / 2)],
    Rollback,
    Execute song_table_insert [PStr ''S2'', PStr ''U'', PStr ''A1'', PInt 2000, PFloat (361 / 2)],
    Execute artist_table_insert [PStr ''A1'', PStr ''N'', PStr ''L'', PFloat 1, PFloat 2],
    Commit]"
proof -
  let ?func = "process_song_file song_files"
  let ?w1 = "snd (try_block mem_driver ?func 2 1 ''a.json'' mem_S1)"
  let ?w2 = "snd (rollback mem_driver
        (print ''duplicate key value violates unique constraint''
           (print (db_error_line ''a.json'' ''process_song_file'') ?w1)))"
  have before: "process_files mem_driver ?func ''process_song_file'' 2 1 [] mem_S1 = (None, mem_S1)"
    by (simp add: process_files_def)
  have failed: "try_block mem_driver ?func 2 (1 + length ([] :: string list)) ''a.json'' mem_S1 =
      (Some (Psycopg2_Error ''duplicate key value violates unique constraint''), ?w1)"
    by code_simp
  have rolled: "rollback mem_driver
        (print ''duplicate key value violates unique constraint''
           (print (db_error_line ''a.json'' ''process_song_file'') ?w1)) = (None, ?w2)"
    by code_simp
  have rest: "calls (snd (process_files mem_driver ?func ''process_song_file'' 2 2 [''b.json''] ?w2)) =
   [Execute song_table_insert [PStr ''S1'', PStr ''T'', PStr ''A1'', PInt 2000, PFloat (361 / 2)],
    Rollback,
    Execute song_table_insert [PStr ''S2'', PStr ''U'', PStr ''A1'', PInt 2000, PFloat (361 / 2)],
    Execute artist_table_insert [PStr ''A1'', PStr ''N'', PStr ''L'', PFloat 1, PFloat 2],
    Commit]"
    by code_simp
  from store_error_contained [OF before, of "''a.json''"
      "''duplicate key value violates unique constraint''" ?w1 ?w2 "[''b.json'']"] failed rolled
  have "process_files mem_driver ?func ''process_song_file'' 2 1 ([] @ ''a.json'' # [''b.json''])
          mem_S1 =
        process_files mem_driver ?func ''process_song_file'' 2 (Suc (1 + length ([] :: string list)))
          [''b.json''] ?w2"
    by blast
  then have "process_files mem_driver ?func ''process_song_file'' 2 1 [''a.json'', ''b.json'']
          mem_S1 =
        process_files mem_driver ?func ''process_song_file'' 2 2 [''b.json''] ?w2"
    by (simp del: One_nat_def)
  with rest show ?thesis by (simp del: One_nat_def)
qed

text \<open>
  C6, as the claim states it, fails: the progress line is printed inside the \<open>try\<close>
  block, after the commit. A song file whose \<open>song_id\<close> is already in the store makes
  the insert raise; the run prints the two lines of the error report and no progress
  line.
\<close>

theorem failed_file_prints_no_progress:
  "stdout (snd (process_files mem_driver (process_song_file song_files) ''process_song_file'' 1 1
     [''a.json''] mem_S1)) =
     [db_error_line ''a.json'' ''process_song_file'',
      ''duplicate key value violates unique constraint''] \<and>
   progress_line 1 1 = ''1/1 files processed.'' \<and>
   progress_line 1 1 \<notin> set (stdout (snd (process_files mem_driver (process_song_file song_files)
     ''process_song_file'' 1 1 [''a.json''] mem_S1)))"
  by code_simp

text \<open>
  C6, amended. One turn of the loop, for the file at position \<open>i\<close>, prints after the
  transformer has run: the progress line \<open>i/n files processed.\<close> when the transformer
  and the commit succeeded; the error report (the line naming the file and the
  function, then the error) and no progress line when a \<open>psycopg2.Error\<close> was raised;
  nothing when another exception was. Whenever the turn ends normally, after a success
  or after a handled failure, the next file is processed with position \<open>i + 1\<close>.
\<close>

theorem progress_only_after_success:
  assumes "func conn f w = (r, wa)"
      and "process_one conn func func_name n (i, f) w = (r', w')"
  shows "stdout w' = stdout wa @
           (case fst (try_block conn func n i f w) of
              None \<Rightarrow> [progress_line i n]
            | Some e \<Rightarrow> if is_psycopg2_Error e then [db_error_line f func_name, str_exn e] else []) \<and>
         (r' = None \<longrightarrow>
            process_files conn func func_name n i (f # rest) w =
              process_files conn func func_name n (Suc i) rest w')"
proof
  show "r' = None \<longrightarrow>
            process_files conn func func_name n i (f # rest) w =
              process_files conn func func_name n (Suc i) rest w'"
    using assms(2) by (simp add: process_files_Cons)
  show "stdout w' = stdout wa @
           (case fst (try_block conn func n i f w) of
              None \<Rightarrow> [progress_line i n]
            | Some e \<Rightarrow> if is_psycopg2_Error e then [db_error_line f func_name, str_exn e] else [])"
  proof (cases r)
    case (Some e)
    with assms(1) have t: "try_block conn func n i f w = (Some e, wa)"
      by (simp add: try_block_def)
    show ?thesis
    proof (cases "is_psycopg2_Error e")
      case True
      with t assms(2) have
        "rollback conn (print (str_exn e) (print (db_error_line f func_name) wa)) = (r', w')"
        by (simp add: process_one_def)
      from rollback_stdout [OF this] t True show ?thesis
        by (simp add: print_stdout)
    next
      case False
      with t assms(2) show ?thesis
        by (auto simp: process_one_def)
    qed
  next
    case None
    obtain c wb where c: "commit conn wa = (c, wb)"
      by (cases "commit conn wa")
    note sb = commit_stdout [OF c]
    show ?thesis
    proof (cases c)
      case cNone: None
      with None assms(1) c have t: "try_block conn func n i f w = (None, print (progress_line i n) wb)"
        by (simp add: try_block_def)
      with assms(2) have "w' = print (progress_line i n) wb"
        by (simp add: process_one_def)
      with t sb show ?thesis
        by (simp add: print_stdout)
    next
      case (Some e)
      with None assms(1) c have t: "try_block conn func n i f w = (Some e, wb)"
        by (simp add: try_block_def)
      show ?thesis
      proof (cases "is_psycopg2_Error e")
        case True
        with t assms(2) have
          "rollback conn (print (str_exn e) (print (db_error_line f func_name) wb)) = (r', w')"
          by (simp add: process_one_def)
        from rollback_stdout [OF this] t True sb show ?thesis
          by (simp add: print_stdout)
      next
        case False
        with t assms(2) sb show ?thesis
          by (auto simp: process_one_def)
      qed
    qed
  qed
qed

theorem progress_only_after_success_witness:
  "stdout (snd (process_one mem_driver (process_song_file song_files) ''process_song_file'' 2
      (1, ''a.json'') mem_S1)) =
     [db_error_line ''a.json'' ''process_song_file'',
      ''duplicate key value violates unique constraint''] \<and>
   process_files mem_driver (process_song_file song_files) ''process_song_file'' 2 1
     [''a.json'', ''b.json''] mem_S1 =
   process_files mem_driver (process_song_file song_files) ''process_song_file'' 2 2 [''b.json'']
     (snd (process_one mem_driver (process_song_file song_files) ''process_song_file'' 2
        (1, ''a.json'') mem_S1)) \<and>
   stdout (snd (process_files mem_driver (process_song_file song_files) ''process_song_file'' 2 1
     [''a.json'', ''b.json''] mem_S1)) =
     [db_error_line ''a.json'' ''process_song_file'',
      ''duplicate key value violates unique constraint'', ''2/2 files processed.'']"
proof -
  let ?func = "process_song_file song_files"
  let ?wa = "snd (?func mem_driver ''a.json'' mem_S1)"
  let ?w' = "snd (process_one mem_driver ?func ''process_song_file'' 2 (1, ''a.json'') mem_S1)"
  have f: "?func mem_driver ''a.json'' mem_S1 =
      (Some (Psycopg2_Error ''duplicate key value violates unique constraint''), ?wa)"
    by code_simp
  have p: "process_one mem_driver ?func ''process_song_file'' 2 (1, ''a.json'') mem_S1 = (None, ?w')"
    by code_simp
  have t: "fst (try_block mem_driver ?func 2 1 ''a.json'' mem_S1) =
      Some (Psycopg2_Error ''duplicate key value violates unique constraint'')"
    by code_simp
  have out: "stdout ?wa = []"
    by code_simp
  have all: "stdout (snd (process_files mem_driver ?func ''process_song_file'' 2 1
     [''a.json'', ''b.json''] mem_S1)) =
     [db_error_line ''a.json'' ''process_song_file'',
      ''duplicate key value violates unique constraint'', ''2/2 files processed.'']"
    by code_simp
  from progress_only_after_success [OF f p, of "[''b.json'']"]
  have "stdout ?w' = stdout ?wa @
           (case fst (try_block mem_driver ?func 2 1 ''a.json'' mem_S1) of
              None \<Rightarrow> [progress_line 1 2]
            | Some e \<Rightarrow> if is_psycopg2_Error e
                then [db_error_line ''a.json'' ''process_song_file'', str_exn e] else [])"
    and "process_files mem_driver ?func ''process_song_file'' 2 1 (''a.json'' # [''b.json'']) mem_S1 =
              process_files mem_driver ?func ''process_song_file'' 2 (Suc 1) [''b.json''] ?w'"
    by simp_all
  then show ?thesis
    using all by (simp add: t out del: One_nat_def)
qed

section \<open>The entry point: properties\<close>

text \<open>
  C8. When \<open>psycopg2.connect\<close> raises a \<open>psycopg2.Error\<close>, \<open>main\<close> prints the error and
  leaves the handler with \<open>conn\<close> and \<open>cur\<close> unbound. Evaluating \<open>cur\<close>, the first
  argument of the first \<open>process_data\<close> call, then raises \<open>UnboundLocalError\<close>:
  \<open>process_data\<close> is not entered, nothing is printed or issued after the report, and
  \<open>main\<close> ends with that exception.
\<close>

theorem connect_failure_unbound_cursor:
  assumes "connect drv w = (Some (Psycopg2_Error m), w1)"
  shows "main drv expand abspath fs read_songs read_logs w =
           (Some (UnboundLocalError ''cur''), print (connect_line (Psycopg2_Error m)) w1)"
  using assms by (simp add: main_def main_try_def)

theorem connect_failure_unbound_cursor_witness:
  "main offline_driver (\<lambda>p. []) srv_abspath data_fs song_files (\<lambda>p. Inr [log_L1]) mem_empty =
     (Some (UnboundLocalError ''cur''),
      mem_empty\<lparr>calls := [Connect],
        stdout := [connect_line
          (Psycopg2_Error ''could not connect to server: Connection refused'')]\<rparr>)"
proof -
  have "connect offline_driver mem_empty =
      (Some (Psycopg2_Error ''could not connect to server: Connection refused''),
       mem_empty\<lparr>calls := [Connect]\<rparr>)"
    by (simp add: connect_def offline_driver_def mem_driver_def mem_empty_def)
  from connect_failure_unbound_cursor [OF this, of "\<lambda>p. []" srv_abspath data_fs song_files
      "\<lambda>p. Inr [log_L1]"]
  show ?thesis
    by (simp add: print_def mem_empty_def)
qed

section \<open>The file walker: properties\<close>




end
